theory Spec2Isabelle
  imports Main "HOL-Library.AList"
begin

section \<open>Data model\<close>

text \<open>
  The category graph of \<^verbatim>\<open>jwlib.parse\<close>: a \<^verbatim>\<open>Category\<close> has a key, a display name,
  the \<^verbatim>\<open>home\<close> flag and an ordered list of children, each a sub-category or a
  \<^verbatim>\<open>Media\<close> leaf with a display name, a file name and a remote URL. Python strings are
  modelled as \<^typ>\<open>string\<close>; every character the code inspects is ASCII, and an ASCII
  byte never occurs inside a multi-byte UTF-8 sequence, so filtering bytes and filtering
  code points agree.
\<close>

datatype media = Media (m_name: string) (filename: string) (url: string)

datatype category = Category (key: string) (name: string) (home: bool) (contents: "item list")
  and item = SubCategory category | MediaItem media

record settings =
  work_dir :: string
  sub_dir :: string
  mode :: string
  safe_filenames :: bool
  quiet :: int
  include_keyname :: bool
  clean_all_symlinks :: bool

datatype error =
    FileNotFoundError
  | FileExistsError
  | NotADirectoryError
  | IsADirectoryError
  | OSError
  | ValueError
  | RuntimeError string

section \<open>Path functions of \<^verbatim>\<open>posixpath\<close>\<close>

text \<open>
  \<^verbatim>\<open>pj = os.path.join\<close>. On POSIX a component that starts with a slash replaces what
  was joined so far; otherwise it is appended, with a slash in between unless the path so
  far is empty or already ends with one.
\<close>

definition join2 :: "string \<Rightarrow> string \<Rightarrow> string" where
  "join2 path b =
     (if b \<noteq> [] \<and> hd b = CHR ''/'' then b
      else if path = [] \<or> last path = CHR ''/'' then path @ b
      else path @ ''/'' @ b)"

definition pj :: "string \<Rightarrow> string list \<Rightarrow> string" where
  "pj a p = foldl join2 a p"

section \<open>Filename sanitizer\<close>

text \<open>
  \<^verbatim>\<open>str.replace(old, new)\<close>: the occurrences of \<open>old\<close> are replaced from left to right
  without overlap; an empty \<open>old\<close> matches before every character and at the end.
\<close>

function replace_from :: "string \<Rightarrow> string \<Rightarrow> string \<Rightarrow> string" where
  "replace_from old new [] = []"
| "replace_from old new (c # cs) =
     (if old \<noteq> [] \<and> take (length old) (c # cs) = old
      then new @ replace_from old new (drop (length old) (c # cs))
      else c # replace_from old new cs)"
  by pat_completeness auto
termination
proof (relation "measure (\<lambda>(old, new, s). length s)")
  fix old new :: string and c :: char and cs :: string
  assume "old \<noteq> [] \<and> take (length old) (c # cs) = old"
  then have "0 < length old" by simp
  then show "((old, new, drop (length old) (c # cs)), old, new, c # cs)
      \<in> measure (\<lambda>(old, new, s). length s)"
    by simp
qed simp_all

definition str_replace :: "string \<Rightarrow> string \<Rightarrow> string \<Rightarrow> string" where
  "str_replace s old new =
     (if old = [] then new @ concat (map (\<lambda>c. c # new) s) else replace_from old new s)"

definition safe_forbidden :: string where
  "safe_forbidden =
     [CHR ''<'', CHR ''>'', CHR '':'', CHR 0x22, CHR ''|'', CHR ''?'', CHR ''*'', CHR ''/'', CHR 0x00]"

definition unix_forbidden :: string where
  "unix_forbidden = [CHR ''/'', CHR 0x00]"

definition format_filename :: "string \<Rightarrow> bool \<Rightarrow> string" where
  "format_filename string safe =
     (if safe
      then filter (\<lambda>x. x \<notin> set safe_forbidden)
             (str_replace (str_replace string [CHR 0x22] [CHR 0x27]) '':'' ''.'')
      else filter (\<lambda>x. x \<notin> set unix_forbidden) string)"

section \<open>Tree emitters: stdout\<close>

text \<open>
  \<^verbatim>\<open>Media.exists_in\<close> is a method of \<^verbatim>\<open>jwlib.parse\<close>, which is not among the sources at
  hand; the emitters take it as the parameter \<open>ex\<close>: \<open>ex m d\<close> tells whether the item \<open>m\<close>
  exists under the base directory \<open>d\<close>. Its answers are taken as fixed during one run.

  \<^verbatim>\<open>os.path.relpath\<close> depends on the current directory of the process and is taken as
  the parameter \<open>rp\<close> for the value it returns; what is kept of the library function is
  that it raises \<^verbatim>\<open>ValueError\<close> on an empty path.
\<close>

definition relpath :: "(string \<Rightarrow> string \<Rightarrow> string) \<Rightarrow> string \<Rightarrow> string \<Rightarrow> error + string" where
  "relpath rp path start = (if path = [] then Inl ValueError else Inr (rp path start))"

text \<open>The two nested loops of \<^verbatim>\<open>output_stdout\<close>, with the list \<^verbatim>\<open>out\<close> as accumulator.\<close>

fun stdout_contents ::
  "(media \<Rightarrow> string \<Rightarrow> bool) \<Rightarrow> (string \<Rightarrow> string \<Rightarrow> string) \<Rightarrow> settings \<Rightarrow> item list \<Rightarrow>
   string list \<Rightarrow> error + string list" where
  "stdout_contents ex rp s [] out = Inr out"
| "stdout_contents ex rp s (MediaItem m # items) out =
     (if ex m ''.''
      then (case relpath rp (filename m) (work_dir s) of
              Inl e \<Rightarrow> Inl e
            | Inr r \<Rightarrow> stdout_contents ex rp s items (out @ [r]))
      else stdout_contents ex rp s items (out @ [url m]))"
| "stdout_contents ex rp s (SubCategory c # items) out = stdout_contents ex rp s items out"

fun stdout_data ::
  "(media \<Rightarrow> string \<Rightarrow> bool) \<Rightarrow> (string \<Rightarrow> string \<Rightarrow> string) \<Rightarrow> settings \<Rightarrow> category list \<Rightarrow>
   string list \<Rightarrow> error + string list" where
  "stdout_data ex rp s [] out = Inr out"
| "stdout_data ex rp s (c # cs) out =
     (case stdout_contents ex rp s (contents c) out of
        Inl e \<Rightarrow> Inl e
      | Inr out' \<Rightarrow> stdout_data ex rp s cs out')"

text \<open>
  \<^verbatim>\<open>print(*out, sep='\n')\<close> writes the elements separated by newlines and a final
  newline. With \<^verbatim>\<open>uniq\<close> the list becomes a set first, whose iteration order Python
  leaves open: \<open>iter\<close> stands for that order.
\<close>

fun print_sep :: "string list \<Rightarrow> string" where
  "print_sep [] = [CHR 0x0A]"
| "print_sep [x] = x @ [CHR 0x0A]"
| "print_sep (x # y # ys) = x @ [CHR 0x0A] @ print_sep (y # ys)"

definition output_stdout ::
  "(media \<Rightarrow> string \<Rightarrow> bool) \<Rightarrow> (string \<Rightarrow> string \<Rightarrow> string) \<Rightarrow> (string list \<Rightarrow> string list) \<Rightarrow>
   settings \<Rightarrow> category list \<Rightarrow> bool \<Rightarrow> error + string" where
  "output_stdout ex rp iter s data uniq =
     (case stdout_data ex rp s data [] of
        Inl e \<Rightarrow> Inl e
      | Inr out \<Rightarrow> Inr (print_sep (if uniq then iter out else out)))"

section \<open>Tree emitters: M3U and HTML playlists\<close>

text \<open>
  \<^verbatim>\<open>str.upper\<close>, on the ASCII letters; other bytes are left as they are.
\<close>

definition upper_chr :: "char \<Rightarrow> char" where
  "upper_chr c =
     (if of_char (CHR ''a'') \<le> (of_char c :: nat) \<and> (of_char c :: nat) \<le> of_char (CHR ''z'')
      then char_of (of_char c - (32 :: nat)) else c)"

definition upper :: "string \<Rightarrow> string" where
  "upper = map upper_chr"

text \<open>
  The writer is a parameter of \<^verbatim>\<open>output_m3u\<close>; it acts on a state \<open>'w\<close> and may raise. The
  logging sink \<^verbatim>\<open>msg\<close> acts on the same state. The first part of the body of the outer
  loop chooses the playlist file and the directory that sources are prefixed with.
\<close>

type_synonym 'w writer = "string \<Rightarrow> string \<Rightarrow> string \<Rightarrow> bool \<Rightarrow> 'w \<Rightarrow> error + 'w"

definition m3u_target :: "settings \<Rightarrow> bool \<Rightarrow> string \<Rightarrow> category \<Rightarrow> string \<times> string" where
  "m3u_target s flat file_ending category =
     (if flat
      then (pj (work_dir s)
              [key category @ '' - '' @ format_filename (name category) (safe_filenames s)
               @ file_ending],
            sub_dir s)
      else if home category
      then (pj (work_dir s) [format_filename (name category) (safe_filenames s) @ file_ending],
            sub_dir s)
      else (pj (work_dir s) [sub_dir s, key category @ file_ending], []))"

text \<open>
  The first part of the body of the inner loop: the display name and the source of one
  child, or nothing where the loop says \<^verbatim>\<open>continue\<close>.
\<close>

fun m3u_entry ::
  "(media \<Rightarrow> string \<Rightarrow> bool) \<Rightarrow> settings \<Rightarrow> bool \<Rightarrow> string \<Rightarrow> string \<Rightarrow> item \<Rightarrow>
   (string \<times> string) option" where
  "m3u_entry ex s flat file_ending source_prepend_dir (SubCategory c) =
     (if flat then None
      else Some (upper (name c), pj ''.'' [source_prepend_dir, key c @ file_ending]))"
| "m3u_entry ex s flat file_ending source_prepend_dir (MediaItem m) =
     Some (m_name m,
           if ex m (pj (work_dir s) [sub_dir s])
           then pj ''.'' [source_prepend_dir, filename m]
           else url m)"

fun m3u_contents ::
  "(media \<Rightarrow> string \<Rightarrow> bool) \<Rightarrow> (string \<Rightarrow> 'w \<Rightarrow> 'w) \<Rightarrow> 'w writer \<Rightarrow> settings \<Rightarrow> bool \<Rightarrow> string \<Rightarrow>
   string \<Rightarrow> string \<Rightarrow> item list \<Rightarrow> bool \<Rightarrow> 'w \<Rightarrow> error + 'w" where
  "m3u_contents ex say writer s flat file_ending output_file source_prepend_dir [] is_start w =
     Inr w"
| "m3u_contents ex say writer s flat file_ending output_file source_prepend_dir (item # items)
     is_start w =
     (case m3u_entry ex s flat file_ending source_prepend_dir item of
        None \<Rightarrow>
          m3u_contents ex say writer s flat file_ending output_file source_prepend_dir items
            is_start w
      | Some (label, source) \<Rightarrow>
          (case writer source label output_file is_start
                  (if is_start \<and> quiet s < 1 then say (''writing: '' @ output_file) w else w) of
             Inl e \<Rightarrow> Inl e
           | Inr w' \<Rightarrow>
               m3u_contents ex say writer s flat file_ending output_file source_prepend_dir
                 items False w'))"

fun output_m3u ::
  "(media \<Rightarrow> string \<Rightarrow> bool) \<Rightarrow> (string \<Rightarrow> 'w \<Rightarrow> 'w) \<Rightarrow> 'w writer \<Rightarrow> settings \<Rightarrow> category list \<Rightarrow>
   bool \<Rightarrow> string \<Rightarrow> 'w \<Rightarrow> error + 'w" where
  "output_m3u ex say writer s [] flat file_ending w = Inr w"
| "output_m3u ex say writer s (category # data) flat file_ending w =
     (case m3u_target s flat file_ending category of
        (output_file, source_prepend_dir) \<Rightarrow>
          (case m3u_contents ex say writer s flat file_ending output_file source_prepend_dir
                  (contents category) True w of
             Inl e \<Rightarrow> Inl e
           | Inr w' \<Rightarrow> output_m3u ex say writer s data flat file_ending w'))"

text \<open>
  To observe what the emitter asks its writer to write, the writer is instantiated with
  one that records its arguments (source, name, file, overwrite) in call order and the
  logging sink with one that drops the line.
\<close>

type_synonym call = "string \<times> string \<times> string \<times> bool"

definition record_call :: "call list writer" where
  "record_call source label file overwrite calls =
     Inr (calls @ [(source, label, file, overwrite)])"

definition no_msg :: "string \<Rightarrow> call list \<Rightarrow> call list" where
  "no_msg line calls = calls"

fun medias :: "item list \<Rightarrow> media list" where
  "medias [] = []"
| "medias (MediaItem m # items) = m # medias items"
| "medias (SubCategory c # items) = medias items"


text \<open>
  Auxiliary notions for stating what the emitter writes: the calls one category gives rise
  to (\<open>category_calls\<close>), a category stripped of its sub-category children
  (\<open>media_only\<close>), and the effect of a list of calls on an arbitrary writer
  (\<open>run_calls\<close>).
\<close>

fun play_calls :: "string \<Rightarrow> bool \<Rightarrow> (string \<times> string) list \<Rightarrow> call list" where
  "play_calls f st [] = []"
| "play_calls f st ((label, source) # es) = (source, label, f, st) # play_calls f False es"

definition category_calls ::
  "(media \<Rightarrow> string \<Rightarrow> bool) \<Rightarrow> settings \<Rightarrow> bool \<Rightarrow> string \<Rightarrow> category \<Rightarrow> call list" where
  "category_calls ex s flat fe c =
     play_calls (fst (m3u_target s flat fe c)) True
       (List.map_filter (m3u_entry ex s flat fe (snd (m3u_target s flat fe c))) (contents c))"

fun run_calls :: "settings \<Rightarrow> (string \<Rightarrow> 'w \<Rightarrow> 'w) \<Rightarrow> 'w writer \<Rightarrow> call list \<Rightarrow> 'w \<Rightarrow> error + 'w" where
  "run_calls s say writer [] w = Inr w"
| "run_calls s say writer ((source, label, file, overwrite) # cs) w =
     (case writer source label file overwrite
             (if overwrite \<and> quiet s < 1 then say (''writing: '' @ file) w else w) of
        Inl e \<Rightarrow> Inl e
      | Inr w' \<Rightarrow> run_calls s say writer cs w')"

definition media_only :: "category \<Rightarrow> category" where
  "media_only c = Category (key c) (name c) (home c) (map MediaItem (medias (contents c)))"

section \<open>A model of the file system\<close>

text \<open>
  What the code does to the disk goes through calls of \<^verbatim>\<open>os\<close> and \<^verbatim>\<open>open\<close>. They are
  modelled on a store of nodes: regular files with their content, directories and
  symbolic links with their target. A node is found by its location, the list of names
  from the root; the root is always a directory. The model is of a POSIX system and makes
  these simplifying assumptions, which the theorems about the disk inherit:
  \<^item> a path is resolved lexically: empty components and \<^verbatim>\<open>.\<close> are skipped, \<^verbatim>\<open>..\<close> removes
    the last name (and stays at the root), a relative path starts at the current
    directory of the process;
  \<^item> a symbolic link is followed (up to 40 times, as Linux does) when it is the last
    component of a path given to a call that follows links; a directory reached only
    through a symbolic link is not entered: a new node needs a real directory as parent;
  \<^item> there are no permissions, quotas or concurrent writers.
\<close>

datatype node = File string | Dir | Symlink string

type_synonym loc = "string list"

record world =
  cwd :: loc
  nodes :: "(loc \<times> node) list"
  messages :: "string list"
  stdout :: string

text \<open>
  \<^verbatim>\<open>msg\<close>, the logging sink of \<^verbatim>\<open>jwlib\<close>, appends a line to the messages; what is
  printed goes to \<open>stdout\<close>.
\<close>

definition msg :: "string \<Rightarrow> world \<Rightarrow> world" where
  "msg line w = w\<lparr>messages := messages w @ [line]\<rparr>"

definition node_at :: "world \<Rightarrow> loc \<Rightarrow> node option" where
  "node_at w k = (if k = [] then Some Dir else map_of (nodes w) k)"

definition put_node :: "loc \<Rightarrow> node \<Rightarrow> world \<Rightarrow> world" where
  "put_node k n w = w\<lparr>nodes := AList.update k n (nodes w)\<rparr>"

definition del_node :: "loc \<Rightarrow> world \<Rightarrow> world" where
  "del_node k w = w\<lparr>nodes := AList.delete k (nodes w)\<rparr>"

text \<open>\<^verbatim>\<open>str.split('/')\<close> and the lexical resolution of a path from a base location.\<close>

fun split_sep :: "string \<Rightarrow> string list" where
  "split_sep [] = [[]]"
| "split_sep (c # cs) =
     (if c = CHR ''/'' then [] # split_sep cs
      else (case split_sep cs of [] \<Rightarrow> [[c]] | x # xs \<Rightarrow> (c # x) # xs))"

definition step_comp :: "loc \<Rightarrow> string \<Rightarrow> loc" where
  "step_comp k c = (if c = [] \<or> c = ''.'' then k else if c = ''..'' then butlast k else k @ [c])"

definition walk_from :: "loc \<Rightarrow> string \<Rightarrow> loc" where
  "walk_from base p = foldl step_comp (if take 1 p = ''/'' then [] else base) (split_sep p)"

definition loc_of :: "world \<Rightarrow> string \<Rightarrow> loc option" where
  "loc_of w p = (if p = [] then None else Some (walk_from (cwd w) p))"

text \<open>
  Following the symbolic links at a location: the location of the first node that is not
  a link (which may be missing), or nothing when the links do not end.
\<close>

fun follow :: "nat \<Rightarrow> world \<Rightarrow> loc \<Rightarrow> loc option" where
  "follow 0 w k = (case node_at w k of Some (Symlink t) \<Rightarrow> None | _ \<Rightarrow> Some k)"
| "follow (Suc n) w k =
     (case node_at w k of
        Some (Symlink t) \<Rightarrow> (if t = [] then None else follow n w (walk_from (butlast k) t))
      | _ \<Rightarrow> Some k)"

definition stat_loc :: "world \<Rightarrow> loc \<Rightarrow> error + node" where
  "stat_loc w k =
     (case follow 40 w k of
        None \<Rightarrow> Inl OSError
      | Some k' \<Rightarrow> (case node_at w k' of None \<Rightarrow> Inl FileNotFoundError | Some n \<Rightarrow> Inr n))"

definition os_stat :: "world \<Rightarrow> string \<Rightarrow> error + node" where
  "os_stat w p = (case loc_of w p of None \<Rightarrow> Inl FileNotFoundError | Some k \<Rightarrow> stat_loc w k)"

definition os_lstat :: "world \<Rightarrow> string \<Rightarrow> error + node" where
  "os_lstat w p =
     (case loc_of w p of
        None \<Rightarrow> Inl FileNotFoundError
      | Some k \<Rightarrow> (case node_at w k of None \<Rightarrow> Inl FileNotFoundError | Some n \<Rightarrow> Inr n))"

text \<open>
  \<^verbatim>\<open>st_size\<close>: the length of the content of a regular file; for a directory the size of
  one block, which is not zero.
\<close>

fun st_size :: "node \<Rightarrow> nat" where
  "st_size (File c) = length c"
| "st_size Dir = 4096"
| "st_size (Symlink t) = length t"

definition os_path_exists :: "world \<Rightarrow> string \<Rightarrow> bool" where
  "os_path_exists w p = (case os_stat w p of Inl e \<Rightarrow> False | Inr n \<Rightarrow> True)"

definition os_path_isdir :: "world \<Rightarrow> string \<Rightarrow> bool" where
  "os_path_isdir w p = (os_stat w p = Inr Dir)"

definition os_path_islink :: "world \<Rightarrow> string \<Rightarrow> bool" where
  "os_path_islink w p = (case os_lstat w p of Inr (Symlink t) \<Rightarrow> True | _ \<Rightarrow> False)"

definition os_readlink :: "world \<Rightarrow> string \<Rightarrow> error + string" where
  "os_readlink w p =
     (case os_lstat w p of Inl e \<Rightarrow> Inl e | Inr (Symlink t) \<Rightarrow> Inr t | Inr n \<Rightarrow> Inl OSError)"

definition parent_error :: "world \<Rightarrow> loc \<Rightarrow> error option" where
  "parent_error w k =
     (case node_at w (butlast k) of
        None \<Rightarrow> Some FileNotFoundError
      | Some Dir \<Rightarrow> None
      | Some n \<Rightarrow> Some NotADirectoryError)"

definition create_node :: "loc \<Rightarrow> node \<Rightarrow> world \<Rightarrow> error + world" where
  "create_node k n w =
     (case parent_error w k of Some e \<Rightarrow> Inl e | None \<Rightarrow> Inr (put_node k n w))"

definition os_symlink :: "world \<Rightarrow> string \<Rightarrow> string \<Rightarrow> error + world" where
  "os_symlink w src dst =
     (if src = [] then Inl FileNotFoundError
      else case loc_of w dst of
        None \<Rightarrow> Inl FileNotFoundError
      | Some k \<Rightarrow>
          (case node_at w k of
             Some n \<Rightarrow> Inl FileExistsError
           | None \<Rightarrow> create_node k (Symlink src) w))"

definition os_remove :: "world \<Rightarrow> string \<Rightarrow> error + world" where
  "os_remove w p =
     (case loc_of w p of
        None \<Rightarrow> Inl FileNotFoundError
      | Some k \<Rightarrow>
          (if k = [] then Inl IsADirectoryError
           else case node_at w k of
             None \<Rightarrow> Inl FileNotFoundError
           | Some Dir \<Rightarrow> Inl IsADirectoryError
           | Some n \<Rightarrow> Inr (del_node k w)))"

text \<open>
  \<^verbatim>\<open>os.makedirs(name, exist_ok=True)\<close>, by its contract: every missing directory on the
  way to the leaf is created, an existing directory is accepted, anything else in the
  way is an error.
\<close>

fun mkdirs_loc :: "world \<Rightarrow> loc \<Rightarrow> loc \<Rightarrow> error + world" where
  "mkdirs_loc w base [] = Inr w"
| "mkdirs_loc w base (c # cs) =
     (case node_at w (base @ [c]) of
        None \<Rightarrow> mkdirs_loc (put_node (base @ [c]) Dir w) (base @ [c]) cs
      | Some Dir \<Rightarrow> mkdirs_loc w (base @ [c]) cs
      | Some (File x) \<Rightarrow> Inl (if cs = [] then FileExistsError else NotADirectoryError)
      | Some (Symlink t) \<Rightarrow>
          (if cs \<noteq> [] then Inl NotADirectoryError
           else if stat_loc w (base @ [c]) = Inr Dir then Inr w
           else Inl FileExistsError))"

definition os_makedirs :: "world \<Rightarrow> string \<Rightarrow> error + world" where
  "os_makedirs w name' =
     (case loc_of w name' of None \<Rightarrow> Inl FileNotFoundError | Some k \<Rightarrow> mkdirs_loc w [] k)"

text \<open>
  \<^verbatim>\<open>open(file, 'w')\<close> and \<^verbatim>\<open>open(file, 'a')\<close>, each followed by one \<^verbatim>\<open>write\<close> and the close
  of the file. Both follow symbolic links and create the file when it is missing.
\<close>

definition write_file :: "world \<Rightarrow> string \<Rightarrow> string \<Rightarrow> error + world" where
  "write_file w p text' =
     (case loc_of w p of
        None \<Rightarrow> Inl FileNotFoundError
      | Some k \<Rightarrow>
          (case follow 40 w k of
             None \<Rightarrow> Inl OSError
           | Some k' \<Rightarrow>
               (case node_at w k' of
                  None \<Rightarrow> create_node k' (File text') w
                | Some (File c) \<Rightarrow> Inr (put_node k' (File text') w)
                | Some n \<Rightarrow> Inl IsADirectoryError)))"

definition append_file :: "world \<Rightarrow> string \<Rightarrow> string \<Rightarrow> error + world" where
  "append_file w p text' =
     (case loc_of w p of
        None \<Rightarrow> Inl FileNotFoundError
      | Some k \<Rightarrow>
          (case follow 40 w k of
             None \<Rightarrow> Inl OSError
           | Some k' \<Rightarrow>
               (case node_at w k' of
                  None \<Rightarrow> create_node k' (File text') w
                | Some (File c) \<Rightarrow> Inr (put_node k' (File (c @ text')) w)
                | Some n \<Rightarrow> Inl IsADirectoryError)))"

definition read_file :: "world \<Rightarrow> string \<Rightarrow> string option" where
  "read_file w p = (case os_stat w p of Inr (File c) \<Rightarrow> Some c | _ \<Rightarrow> None)"

text \<open>\<^verbatim>\<open>os.path.split\<close>, \<^verbatim>\<open>dirname\<close>, \<^verbatim>\<open>basename\<close> and \<^verbatim>\<open>splitext\<close>.\<close>

definition rstrip_sep :: "string \<Rightarrow> string" where
  "rstrip_sep p = rev (dropWhile (\<lambda>c. c = CHR ''/'') (rev p))"

definition path_split :: "string \<Rightarrow> string \<times> string" where
  "path_split p =
     (let tail = rev (takeWhile (\<lambda>c. c \<noteq> CHR ''/'') (rev p));
          head = take (length p - length tail) p
      in (if rstrip_sep head = [] then head else rstrip_sep head, tail))"

definition dirname :: "string \<Rightarrow> string" where
  "dirname p = fst (path_split p)"

definition basename :: "string \<Rightarrow> string" where
  "basename p = snd (path_split p)"

definition splitext :: "string \<Rightarrow> string \<times> string" where
  "splitext p =
     (let tail = rev (takeWhile (\<lambda>c. c \<noteq> CHR ''/'') (rev p));
          ext = rev (takeWhile (\<lambda>c. c \<noteq> CHR ''.'') (rev tail))
      in if length ext = length tail then (p, [])
         else if dropWhile (\<lambda>c. c = CHR ''.'') (take (length tail - length ext - 1) tail) = []
         then (p, [])
         else (take (length p - length ext - 1) p, drop (length p - length ext - 1) p))"

section \<open>Playlist writer\<close>

definition truncate_file :: "string \<Rightarrow> string \<Rightarrow> bool \<Rightarrow> world \<Rightarrow> error + world" where
  "truncate_file file string overwrite w =
     (case os_makedirs w (dirname file) of
        Inl e \<Rightarrow> Inl e
      | Inr w' \<Rightarrow>
          (if overwrite then write_file w' file string
           else case os_stat w' file of
             Inl FileNotFoundError \<Rightarrow> write_file w' file string
           | Inl e \<Rightarrow> Inl e
           | Inr n \<Rightarrow> (if st_size n \<noteq> 0 then Inr w' else write_file w' file string)))"

definition write_to_m3u :: "world writer" where
  "write_to_m3u source label file overwrite w =
     (case truncate_file file (''#EXTM3U'' @ [CHR 0x0A]) overwrite w of
        Inl e \<Rightarrow> Inl e
      | Inr w' \<Rightarrow>
          append_file w' file (''#EXTINF:0,'' @ label @ [CHR 0x0A] @ source @ [CHR 0x0A]))"

definition html_header :: string where
  "html_header =
     ''<!DOCTYPE html>'' @ [CHR 0x0A] @ ''<head><meta charset='' @ [CHR 0x22] @ ''utf-8''
     @ [CHR 0x22] @ '' /></head>''"

definition write_to_html :: "world writer" where
  "write_to_html source label file overwrite w =
     (case truncate_file file html_header overwrite w of
        Inl e \<Rightarrow> Inl e
      | Inr w' \<Rightarrow>
          append_file w' file
            ([CHR 0x0A] @ ''<a href='' @ [CHR 0x22] @ source @ [CHR 0x22] @ ''>'' @ label
             @ ''</a><br>''))"

text \<open>
  The playlist entries written to one file during a run, as \<^verbatim>\<open>output_m3u\<close> does it: the
  first with \<^verbatim>\<open>overwrite\<close> set, the later ones without.
\<close>

fun m3u_writes :: "string \<Rightarrow> (string \<times> string) list \<Rightarrow> bool \<Rightarrow> world \<Rightarrow> error + world" where
  "m3u_writes file [] overwrite w = Inr w"
| "m3u_writes file ((source, label) # es) overwrite w =
     (case write_to_m3u source label file overwrite w of
        Inl e \<Rightarrow> Inl e
      | Inr w' \<Rightarrow> m3u_writes file es False w')"

definition m3u_entry_text :: "string \<times> string \<Rightarrow> string" where
  "m3u_entry_text e = ''#EXTINF:0,'' @ snd e @ [CHR 0x0A] @ fst e @ [CHR 0x0A]"

section \<open>Tree emitters: directories and symbolic links\<close>

text \<open>
  \<^verbatim>\<open>os.symlink\<close> inside \<^verbatim>\<open>try ... except FileExistsError: pass\<close>: an existing node at
  the path of the link is tolerated and left as it is; any other error is raised.
\<close>

definition try_symlink :: "string \<Rightarrow> string \<Rightarrow> world \<Rightarrow> error + world" where
  "try_symlink source link w =
     (case os_symlink w source link of
        Inl FileExistsError \<Rightarrow> Inr w
      | Inl e \<Rightarrow> Inl e
      | Inr w' \<Rightarrow> Inr w')"

fun filesystem_contents ::
  "(media \<Rightarrow> string \<Rightarrow> bool) \<Rightarrow> settings \<Rightarrow> string \<Rightarrow> item list \<Rightarrow> world \<Rightarrow> error + world" where
  "filesystem_contents ex s output_dir [] w = Inr w"
| "filesystem_contents ex s output_dir (SubCategory c # items) w =
     (case os_makedirs w (pj (work_dir s) [sub_dir s, key c]) of
        Inl e \<Rightarrow> Inl e
      | Inr w' \<Rightarrow>
          (case try_symlink (pj ''..'' [key c])
                  (if include_keyname s
                   then pj output_dir
                          [key c @ '' - '' @ format_filename (name c) (safe_filenames s)]
                   else pj output_dir [format_filename (name c) (safe_filenames s)]) w' of
             Inl e \<Rightarrow> Inl e
           | Inr w'' \<Rightarrow> filesystem_contents ex s output_dir items w''))"
| "filesystem_contents ex s output_dir (MediaItem m # items) w =
     (if \<not> ex m (pj (work_dir s) [sub_dir s]) then filesystem_contents ex s output_dir items w
      else case try_symlink (pj ''..'' [filename m])
                  (pj output_dir
                     [format_filename (m_name m @ snd (splitext (filename m)))
                        (safe_filenames s)]) w of
             Inl e \<Rightarrow> Inl e
           | Inr w' \<Rightarrow> filesystem_contents ex s output_dir items w')"

fun filesystem_data ::
  "(media \<Rightarrow> string \<Rightarrow> bool) \<Rightarrow> settings \<Rightarrow> category list \<Rightarrow> world \<Rightarrow> error + world" where
  "filesystem_data ex s [] w = Inr w"
| "filesystem_data ex s (category # data) w =
     (case os_makedirs w (pj (work_dir s) [sub_dir s, key category]) of
        Inl e \<Rightarrow> Inl e
      | Inr w' \<Rightarrow>
          (case (if home category
                 then try_symlink (pj (sub_dir s) [key category])
                        (pj (work_dir s) [format_filename (name category) (safe_filenames s)])
                        w'
                 else Inr w') of
             Inl e \<Rightarrow> Inl e
           | Inr w'' \<Rightarrow>
               (case filesystem_contents ex s (pj (work_dir s) [sub_dir s, key category])
                       (contents category) w'' of
                  Inl e \<Rightarrow> Inl e
                | Inr w''' \<Rightarrow> filesystem_data ex s data w''')))"

definition output_filesystem ::
  "(media \<Rightarrow> string \<Rightarrow> bool) \<Rightarrow> settings \<Rightarrow> category list \<Rightarrow> world \<Rightarrow> error + world" where
  "output_filesystem ex s data w =
     filesystem_data ex s data
       (if quiet s < 1 then msg ''creating directory structure'' w else w)"

section \<open>Stale-link cleaner\<close>

text \<open>
  \<^verbatim>\<open>os.listdir\<close>: the names of the nodes directly inside a directory, in the order of the
  store.
\<close>

definition children :: "world \<Rightarrow> loc \<Rightarrow> string list" where
  "children w k =
     remdups (map (\<lambda>e. last (fst e)) (filter (\<lambda>e. fst e \<noteq> [] \<and> butlast (fst e) = k) (nodes w)))"

definition os_listdir :: "world \<Rightarrow> string \<Rightarrow> error + string list" where
  "os_listdir w p =
     (case loc_of w p of
        None \<Rightarrow> Inl FileNotFoundError
      | Some k \<Rightarrow>
          (case follow 40 w k of
             None \<Rightarrow> Inl OSError
           | Some k' \<Rightarrow>
               (case node_at w k' of
                  None \<Rightarrow> Inl FileNotFoundError
                | Some Dir \<Rightarrow> Inr (children w k')
                | Some n \<Rightarrow> Inl NotADirectoryError)))"

fun clean_files :: "settings \<Rightarrow> string \<Rightarrow> string list \<Rightarrow> world \<Rightarrow> error + world" where
  "clean_files s subdir [] w = Inr w"
| "clean_files s subdir (file # files) w =
     (if \<not> os_path_islink w (pj subdir [file]) then clean_files s subdir files w
      else case os_readlink w (pj subdir [file]) of
        Inl e \<Rightarrow> Inl e
      | Inr target \<Rightarrow>
          (if clean_all_symlinks s \<or> \<not> os_path_exists w (pj subdir [target])
           then (case os_remove
                        (if quiet s < 1
                         then msg (''removing link: '' @ basename (pj subdir [file])) w
                         else w)
                        (pj subdir [file]) of
                   Inl e \<Rightarrow> Inl e
                 | Inr w' \<Rightarrow> clean_files s subdir files w')
           else clean_files s subdir files w))"

fun clean_subdirs :: "settings \<Rightarrow> string \<Rightarrow> string list \<Rightarrow> world \<Rightarrow> error + world" where
  "clean_subdirs s path [] w = Inr w"
| "clean_subdirs s path (subdir # subdirs) w =
     (if \<not> os_path_isdir w (pj path [subdir]) then clean_subdirs s path subdirs w
      else case os_listdir w (pj path [subdir]) of
        Inl e \<Rightarrow> Inl e
      | Inr files \<Rightarrow>
          (case clean_files s (pj path [subdir]) files w of
             Inl e \<Rightarrow> Inl e
           | Inr w' \<Rightarrow> clean_subdirs s path subdirs w'))"

definition clean_symlinks :: "settings \<Rightarrow> world \<Rightarrow> error + world" where
  "clean_symlinks s w =
     (if \<not> os_path_isdir w (pj (work_dir s) [sub_dir s]) then Inr w
      else case os_listdir w (pj (work_dir s) [sub_dir s]) of
        Inl e \<Rightarrow> Inl e
      | Inr subdirs \<Rightarrow> clean_subdirs s (pj (work_dir s) [sub_dir s]) subdirs w)"

section \<open>Dispatch on the output mode\<close>

text \<open>
  Where Python passes no writer, \<^verbatim>\<open>output_m3u\<close> falls back to \<^verbatim>\<open>_write_to_m3u\<close>; the
  model passes it explicitly.
\<close>

definition create_output ::
  "(media \<Rightarrow> string \<Rightarrow> bool) \<Rightarrow> (string \<Rightarrow> string \<Rightarrow> string) \<Rightarrow> (string list \<Rightarrow> string list) \<Rightarrow>
   settings \<Rightarrow> category list \<Rightarrow> bool \<Rightarrow> world \<Rightarrow> error + world" where
  "create_output ex rp iter s data stdout_uniq w =
     (if mode s = ''stdout''
      then (case output_stdout ex rp iter s data stdout_uniq of
              Inl e \<Rightarrow> Inl e
            | Inr printed \<Rightarrow> Inr (w\<lparr>stdout := stdout w @ printed\<rparr>))
      else if mode s = ''m3u'' then output_m3u ex msg write_to_m3u s data False ''.m3u'' w
      else if mode s = ''filesystem''
      then (case clean_symlinks s w of
              Inl e \<Rightarrow> Inl e
            | Inr w' \<Rightarrow> output_filesystem ex s data w')
      else if mode s = ''m3ucompat'' then output_m3u ex msg write_to_m3u s data True ''.m3u'' w
      else if mode s = ''html'' then output_m3u ex msg write_to_html s data False ''.html'' w
      else Inl (RuntimeError ''invalid mode''))"

text \<open>
  Two relations between states of the disk. \<open>keeps w t\<close>: every node of \<open>w\<close> is in \<open>t\<close>
  as it is. \<open>ext w t\<close>: every node of \<open>w\<close> is in \<open>t\<close>, except that a regular file may have
  another content.
\<close>

definition keeps :: "world \<Rightarrow> world \<Rightarrow> bool" where
  "keeps w t = (cwd t = cwd w \<and> (\<forall>k n. node_at w k = Some n \<longrightarrow> node_at t k = Some n))"

definition ext :: "world \<Rightarrow> world \<Rightarrow> bool" where
  "ext w t =
     (cwd t = cwd w
      \<and> (\<forall>k n. node_at w k = Some n \<longrightarrow>
            node_at t k = Some n \<or> (\<exists>c c'. n = File c \<and> node_at t k = Some (File c'))))"

section \<open>Well-formed disks and stale links\<close>

text \<open>
  A name is proper when it can be the name of a directory entry. A disk is well formed
  when every node has a proper name and sits in a directory, and no symbolic link has an
  empty target.
\<close>

definition proper :: "string \<Rightarrow> bool" where
  "proper c = (c \<noteq> [] \<and> c \<noteq> ''.'' \<and> c \<noteq> ''..'' \<and> CHR ''/'' \<notin> set c)"

definition wf_world :: "world \<Rightarrow> bool" where
  "wf_world w =
     list_all (\<lambda>e. fst e \<noteq> [] \<and> proper (last (fst e)) \<and> node_at w (butlast (fst e)) = Some Dir
                  \<and> snd e \<noteq> Symlink []) (nodes w)"






section \<open>Example inputs\<close>

text \<open>
  The example of the specification: one home category holding one media item, working
  directory \<^verbatim>\<open>/out\<close>, content subdirectory \<^verbatim>\<open>vids\<close>; and three answers of
  \<^verbatim>\<open>exists_in\<close>: the item exists nowhere, exists under \<^verbatim>\<open>/out\<close> only, exists under the
  current directory only.
\<close>

definition example_settings :: "string \<Rightarrow> settings" where
  "example_settings m =
     \<lparr>work_dir = ''/out'', sub_dir = ''vids'', mode = m, safe_filenames = False, quiet = 0,
      include_keyname = False, clean_all_symlinks = False\<rparr>"

definition video_a :: media where
  "video_a = Media ''Video A'' ''a.mp4'' ''http://x/a.mp4''"

definition category_one :: category where
  "category_one = Category ''c1'' ''Category One'' True [MediaItem video_a]"

definition exists_nowhere :: "media \<Rightarrow> string \<Rightarrow> bool" where
  "exists_nowhere m d = False"

definition exists_in_out :: "media \<Rightarrow> string \<Rightarrow> bool" where
  "exists_in_out m d = (d = ''/out'')"

definition exists_in_dot :: "media \<Rightarrow> string \<Rightarrow> bool" where
  "exists_in_dot m d = (d = ''.'')"

definition rel_plain :: "string \<Rightarrow> string \<Rightarrow> string" where
  "rel_plain path start = ''../cwd/'' @ path"

text \<open>
  Two states of the disk: one with an old playlist, one with a downloaded media file; the
  second after the directory emitter has run on it; a category with a sub-category and
  a media item; and the answer of \<^verbatim>\<open>exists_in\<close> that finds every item.
\<close>

definition old_disk :: world where
  "old_disk =
     \<lparr>cwd = [], nodes = [([''out''], Dir), ([''out'', ''old.m3u''], File ''junk'')],
      messages = [], stdout = []\<rparr>"







section \<open>Properties of the sanitizer\<close>

lemma replace_from_single:
  "replace_from [a] [b] s = map (\<lambda>x. if x = a then b else x) s"
  by (induction s) auto

lemma str_replace_single:
  "str_replace s [a] [b] = map (\<lambda>x. if x = a then b else x) s"
  by (simp add: str_replace_def replace_from_single)

lemma str_replace_absent:
  "a \<notin> set s \<Longrightarrow> str_replace s [a] [b] = s"
  by (induction s) (auto simp: str_replace_single)

lemma safe_substituted_free:
  "CHR 0x22 \<notin> set (format_filename s True) \<and> CHR '':'' \<notin> set (format_filename s True)"
  by (simp add: format_filename_def safe_forbidden_def)

text \<open>
  Claim C3. For every input string, \<^verbatim>\<open>format_filename\<close> with \<^verbatim>\<open>safe=False\<close> returns a
  string containing neither the slash nor NUL; with \<^verbatim>\<open>safe=True\<close> it returns a string
  containing none of the characters \<^verbatim>\<open><>:"|?*/\<close> and NUL, and this string is the input
  in which first every colon has become a full stop and every double quote a single
  quote, and from which the remaining forbidden characters have then been removed. As a
  HOL function the sanitizer is total and deterministic.
\<close>

theorem format_filename_forbidden:
  "CHR ''/'' \<notin> set (format_filename s False)
   \<and> CHR 0x00 \<notin> set (format_filename s False)
   \<and> set (format_filename s True)
       \<inter> {CHR ''<'', CHR ''>'', CHR '':'', CHR 0x22, CHR ''|'', CHR ''?'', CHR ''*'', CHR ''/'',
          CHR 0x00} = {}
   \<and> format_filename s True =
       filter (\<lambda>x. x \<notin> {CHR ''<'', CHR ''>'', CHR ''|'', CHR ''?'', CHR ''*'', CHR ''/'', CHR 0x00})
         (map (\<lambda>x. if x = CHR '':'' then CHR ''.'' else if x = CHR 0x22 then CHR 0x27 else x) s)"
proof -
  have unix: "CHR ''/'' \<notin> set (format_filename s False) \<and> CHR 0x00 \<notin> set (format_filename s False)"
    by (simp add: format_filename_def unix_forbidden_def)
  have safe: "set (format_filename s True)
       \<inter> {CHR ''<'', CHR ''>'', CHR '':'', CHR 0x22, CHR ''|'', CHR ''?'', CHR ''*'', CHR ''/'',
          CHR 0x00} = {}"
    by (auto simp: format_filename_def safe_forbidden_def)
  have shape: "format_filename s True =
       filter (\<lambda>x. x \<notin> {CHR ''<'', CHR ''>'', CHR ''|'', CHR ''?'', CHR ''*'', CHR ''/'', CHR 0x00})
         (map (\<lambda>x. if x = CHR '':'' then CHR ''.'' else if x = CHR 0x22 then CHR 0x27 else x) s)"
    by (induction s) (simp_all add: format_filename_def safe_forbidden_def str_replace_single)
  from unix safe shape show ?thesis by blast
qed

text \<open>
  Claim C10. The sanitizer is idempotent in both modes: sanitizing a sanitized name
  returns it unchanged.
\<close>

theorem format_filename_idempotent:
  "format_filename (format_filename s safe) safe = format_filename s safe"
proof (cases safe)
  case True
  have q: "CHR 0x22 \<notin> set (format_filename s True)"
    and c: "CHR '':'' \<notin> set (format_filename s True)"
    using safe_substituted_free [of s] by simp_all
  have "str_replace (str_replace (format_filename s True) [CHR 0x22] [CHR 0x27]) '':'' ''.''
        = format_filename s True"
    using q c by (simp add: str_replace_absent)
  moreover have "filter (\<lambda>x. x \<notin> set safe_forbidden) (format_filename s True)
        = format_filename s True"
    by (simp add: format_filename_def)
  ultimately show ?thesis
    using True by (simp add: format_filename_def [of "format_filename s True" True])
next
  case False
  then show ?thesis by (simp add: format_filename_def)
qed

section \<open>What the playlist emitter writes\<close>

lemma run_calls_append:
  "run_calls s say writer (xs @ ys) w =
     (case run_calls s say writer xs w of Inl e \<Rightarrow> Inl e | Inr w' \<Rightarrow> run_calls s say writer ys w')"
  by (induction xs arbitrary: w) (auto split: sum.splits)

lemma contents_run_calls:
  "m3u_contents ex say writer s flat fe f spd items st w =
     run_calls s say writer (play_calls f st (List.map_filter (m3u_entry ex s flat fe spd) items)) w"
proof (induction items arbitrary: st w)
  case Nil
  then show ?case by (simp add: map_filter_simps)
next
  case (Cons item items)
  show ?case
  proof (cases "m3u_entry ex s flat fe spd item")
    case None
    then show ?thesis using Cons.IH by (simp add: map_filter_simps)
  next
    case (Some e)
    obtain label source where e: "e = (label, source)" by (cases e)
    show ?thesis using Some e Cons.IH [of False]
      by (simp add: map_filter_simps split: sum.splits)
  qed
qed

lemma output_m3u_run_calls:
  "output_m3u ex say writer s data flat fe w =
     run_calls s say writer (concat (map (category_calls ex s flat fe) data)) w"
proof (induction data arbitrary: w)
  case Nil
  then show ?case by simp
next
  case (Cons c data)
  obtain f spd where t: "m3u_target s flat fe c = (f, spd)" by (cases "m3u_target s flat fe c")
  show ?case using t Cons.IH
    by (simp add: contents_run_calls category_calls_def run_calls_append split: sum.splits)
qed

lemma run_calls_record: "run_calls s no_msg record_call cs calls = Inr (calls @ cs)"
  by (induction cs arbitrary: calls) (auto simp: record_call_def no_msg_def)

lemma trace_data:
  "output_m3u ex no_msg record_call s data flat fe [] =
     Inr (concat (map (category_calls ex s flat fe) data))"
  by (simp add: output_m3u_run_calls run_calls_record)

lemma play_calls_sources: "map fst (play_calls f st es) = map snd es"
  by (induction f st es rule: play_calls.induct) simp_all


lemma length_play_calls: "length (play_calls f st es) = length es"
  by (induction f st es rule: play_calls.induct) simp_all

lemma flat_entries:
  "List.map_filter (m3u_entry ex s True fe spd) items =
     map (\<lambda>m. (m_name m, if ex m (pj (work_dir s) [sub_dir s]) then pj ''.'' [spd, filename m]
                          else url m)) (medias items)"
  by (induction items rule: medias.induct) (simp_all add: map_filter_simps)


lemma flat_entries_media_only:
  "List.map_filter (m3u_entry ex s True fe spd) (map MediaItem (medias items)) =
   List.map_filter (m3u_entry ex s True fe spd) items"
  by (induction items rule: medias.induct) (simp_all add: map_filter_simps)

lemma category_calls_media_only:
  "category_calls ex s True fe (media_only c) = category_calls ex s True fe c"
  by (simp add: category_calls_def media_only_def m3u_target_def flat_entries_media_only)

text \<open>
  Claim C1 says that in flat mode the source of a media item is always the relative path
  below the content subdirectory and never the URL. The code decides by
  \<^verbatim>\<open>exists_in\<close> in flat mode as in every other mode: for the example of the
  specification, with the file absent, the one call of the writer carries the URL.
\<close>

theorem flat_media_source_counterexample:
  "output_m3u exists_nowhere no_msg record_call (example_settings ''m3ucompat'') [category_one]
       True ''.m3u'' []
     = Inr [(''http://x/a.mp4'', ''Video A'', ''/out/c1 - Category One.m3u'', True)]
   \<and> pj ''.'' [sub_dir (example_settings ''m3ucompat''), filename video_a] = ''./vids/a.mp4''
   \<and> ''http://x/a.mp4'' \<noteq> ''./vids/a.mp4''"
  by (simp add: category_one_def video_a_def exists_nowhere_def example_settings_def
      m3u_target_def pj_def join2_def format_filename_def unix_forbidden_def record_call_def
      no_msg_def)

text \<open>
  Claim C1, amended. In flat mode the sources handed to the writer are, in order, one per
  media child of each category: the path \<^verbatim>\<open>./<subdir>/<filename>\<close> when the item exists
  under the working directory joined with the content subdirectory, and the remote URL of
  the item when it does not.
\<close>

theorem flat_media_source:
  "\<exists>calls. output_m3u ex no_msg record_call s data True fe [] = Inr calls
     \<and> map fst calls =
         concat (map (\<lambda>c. map (\<lambda>m. if ex m (pj (work_dir s) [sub_dir s])
                                  then pj ''.'' [sub_dir s, filename m] else url m)
                            (medias (contents c))) data)"
proof -
  have "map fst (category_calls ex s True fe c) =
          map (\<lambda>m. if ex m (pj (work_dir s) [sub_dir s])
                    then pj ''.'' [sub_dir s, filename m] else url m) (medias (contents c))" for c
    by (simp add: category_calls_def play_calls_sources flat_entries m3u_target_def comp_def)
  then show ?thesis
    by (simp add: trace_data map_concat comp_def)
qed


text \<open>
  Claim C5. In flat mode the sub-category children of a category are skipped entirely:
  for every writer and every state the emitter behaves as on the input from which all
  sub-category children have been removed, and the number of entries it writes is the
  number of media children.
\<close>

theorem flat_skips_subcategories:
  "output_m3u ex say writer s data True fe w
     = output_m3u ex say writer s (map media_only data) True fe w
   \<and> (\<exists>calls. output_m3u ex no_msg record_call s data True fe [] = Inr calls
        \<and> length calls = sum_list (map (\<lambda>c. length (medias (contents c))) data))"
proof -
  have "length (category_calls ex s True fe c) = length (medias (contents c))" for c
    by (simp add: category_calls_def length_play_calls flat_entries)
  then have "length (concat (map (category_calls ex s True fe) data))
      = sum_list (map (\<lambda>c. length (medias (contents c))) data)"
    by (simp add: length_concat comp_def)
  then show ?thesis
    by (simp add: output_m3u_run_calls run_calls_record comp_def category_calls_media_only)
qed

section \<open>What the stdout emitter prints\<close>

lemma stdout_contents_lines:
  assumes "\<forall>m\<in>set (medias items). ex m ''.'' \<longrightarrow> filename m \<noteq> []"
  shows "stdout_contents ex rp s items out =
     Inr (out @ map (\<lambda>m. if ex m ''.'' then rp (filename m) (work_dir s) else url m)
                 (medias items))"
  using assms
  by (induction items arbitrary: out rule: medias.induct) (simp_all add: relpath_def)

lemma stdout_data_lines:
  assumes "\<forall>c\<in>set data. \<forall>m\<in>set (medias (contents c)). ex m ''.'' \<longrightarrow> filename m \<noteq> []"
  shows "stdout_data ex rp s data out =
     Inr (out @ concat (map (\<lambda>c. map (\<lambda>m. if ex m ''.'' then rp (filename m) (work_dir s)
                                          else url m) (medias (contents c))) data))"
  using assms
  by (induction data arbitrary: out) (simp_all add: stdout_contents_lines)

text \<open>
  Claim C2 says that the existence check of the stdout emitter is resolved against the
  configured working directory. The code asks \<^verbatim>\<open>exists_in('.')\<close>: an item that exists
  under the configured working directory \<^verbatim>\<open>/out\<close> but not under the current directory
  is printed as its URL.
\<close>

theorem stdout_existence_counterexample:
  "exists_in_out video_a (work_dir (example_settings ''stdout''))
   \<and> output_stdout exists_in_out rel_plain id (example_settings ''stdout'') [category_one] False
       = Inr (url video_a @ [CHR 0x0A])
   \<and> url video_a \<noteq> rel_plain (filename video_a) (work_dir (example_settings ''stdout''))"
  by (simp add: output_stdout_def category_one_def video_a_def exists_in_out_def rel_plain_def
      example_settings_def)

text \<open>
  Claim C2, amended. In stdout mode the lines printed are, in order, one per media child
  of each top-level category: the file name made relative to the configured working
  directory when the item exists under the base directory \<^verbatim>\<open>.\<close> (the current directory
  of the process, whatever the configured working directory is), and the remote URL of
  the item otherwise. This is for inputs on which \<^verbatim>\<open>os.path.relpath\<close> does not raise: no
  item that exists has an empty file name.
\<close>

theorem stdout_lines:
  assumes "\<forall>c\<in>set data. \<forall>m\<in>set (medias (contents c)). ex m ''.'' \<longrightarrow> filename m \<noteq> []"
  shows "output_stdout ex rp iter s data False =
     Inr (print_sep (concat (map (\<lambda>c. map (\<lambda>m. if ex m ''.'' then rp (filename m) (work_dir s)
                                              else url m) (medias (contents c))) data)))"
  using assms by (simp add: output_stdout_def stdout_data_lines)

theorem stdout_lines_witness:
  "output_stdout exists_in_dot rel_plain id (example_settings ''stdout'') [category_one] False
     = Inr (''../cwd/a.mp4'' @ [CHR 0x0A])"
  using stdout_lines [of "[category_one]" exists_in_dot rel_plain id "example_settings ''stdout''"]
  by (simp add: category_one_def video_a_def exists_in_dot_def rel_plain_def example_settings_def)

section \<open>The store: growth and stability\<close>

lemma node_at_root [simp]: "node_at w [] = Some Dir"
  by (simp add: node_at_def)

lemma node_at_put:
  "node_at (put_node k n w) k' =
     (if k' = [] then Some Dir else if k' = k then Some n else node_at w k')"
  by (simp add: node_at_def put_node_def update_conv')

lemma cwd_put [simp]: "cwd (put_node k n w) = cwd w"
  by (simp add: put_node_def)

lemma loc_of_put [simp]: "loc_of (put_node k n w) p = loc_of w p"
  by (simp add: loc_of_def)

lemma node_at_msg [simp]: "node_at (msg line w) k = node_at w k"
  by (simp add: node_at_def msg_def)

lemma keeps_refl: "keeps w w"
  by (simp add: keeps_def)

lemma keeps_trans: "keeps a b \<Longrightarrow> keeps b c \<Longrightarrow> keeps a c"
  by (simp add: keeps_def)

lemma keeps_ext: "keeps w t \<Longrightarrow> ext w t"
  by (simp add: keeps_def ext_def)

lemma ext_refl: "ext w w"
  by (simp add: ext_def)

lemma ext_trans: "ext a b \<Longrightarrow> ext b c \<Longrightarrow> ext a c"
  unfolding ext_def by (metis node.inject(1) option.inject)

lemma keeps_put_new: "node_at w k = None \<Longrightarrow> keeps w (put_node k n w)"
  by (auto simp: keeps_def node_at_put)

lemma ext_put_file: "node_at w k = Some (File c) \<Longrightarrow> ext w (put_node k (File c') w)"
  by (auto simp: ext_def node_at_put)

lemma loc_of_ext: "ext w t \<Longrightarrow> loc_of t p = loc_of w p"
  by (simp add: ext_def loc_of_def)

lemma follow_put_file:
  assumes "\<And>t. node_at w k' \<noteq> Some (Symlink t)"
  shows "follow m (put_node k' (File x) w) k = follow m w k"
proof (induction m arbitrary: k)
  case 0
  show ?case using assms [of _]
    by (cases "node_at w k") (auto simp: node_at_put split: node.splits option.splits)
next
  case (Suc m)
  show ?case using assms Suc.IH
    by (cases "node_at w k") (auto simp: node_at_put split: node.splits option.splits)
qed

lemma ext_symlink: "ext w t \<Longrightarrow> node_at w k = Some (Symlink x) \<Longrightarrow> node_at t k = Some (Symlink x)"
  by (auto simp: ext_def)

lemma ext_dir: "ext w t \<Longrightarrow> node_at w k = Some Dir \<Longrightarrow> node_at t k = Some Dir"
  by (auto simp: ext_def)

lemma ext_file: "ext w t \<Longrightarrow> node_at w k = Some (File c) \<Longrightarrow> \<exists>c'. node_at t k = Some (File c')"
  by (auto simp: ext_def)


lemma follow_ext:
  "ext w t \<Longrightarrow> follow m w k = Some k' \<Longrightarrow> node_at w k' \<noteq> None \<Longrightarrow> follow m t k = Some k'"
proof (induction m arbitrary: k)
  case 0
  show ?case
  proof (cases "node_at w k")
    case None
    with 0 show ?thesis by simp
  next
    case (Some n)
    show ?thesis
    proof (cases n)
      case (File c)
      with Some ext_file [OF "0.prems"(1), of k c] "0.prems" show ?thesis by auto
    next
      case Dir
      with Some ext_dir [OF "0.prems"(1), of k] "0.prems" show ?thesis by auto
    next
      case (Symlink x)
      with Some "0.prems" show ?thesis by simp
    qed
  qed
next
  case (Suc m)
  show ?case
  proof (cases "node_at w k")
    case None
    with Suc.prems show ?thesis by simp
  next
    case (Some n)
    show ?thesis
    proof (cases n)
      case (File c)
      with Some ext_file [OF Suc.prems(1), of k c] Suc.prems show ?thesis by auto
    next
      case Dir
      with Some ext_dir [OF Suc.prems(1), of k] Suc.prems show ?thesis by auto
    next
      case (Symlink x)
      with Some ext_symlink [OF Suc.prems(1), of k x] Suc show ?thesis
        by (auto split: if_splits)
    qed
  qed
qed

lemma stat_dir_ext: "ext w t \<Longrightarrow> stat_loc w k = Inr Dir \<Longrightarrow> stat_loc t k = Inr Dir"
proof -
  assume e: "ext w t" and s: "stat_loc w k = Inr Dir"
  from s obtain k' where f: "follow 40 w k = Some k'" and n: "node_at w k' = Some Dir"
    by (auto simp: stat_loc_def split: option.splits)
  from follow_ext [OF e f] n have "follow 40 t k = Some k'" by simp
  moreover from e n have "node_at t k' = Some Dir" by (rule ext_dir)
  ultimately show ?thesis by (simp add: stat_loc_def)
qed

lemma stat_loc_keeps: "keeps w t \<Longrightarrow> stat_loc w k = Inr n \<Longrightarrow> stat_loc t k = Inr n"
proof -
  assume e: "keeps w t" and s: "stat_loc w k = Inr n"
  from s obtain k' where f: "follow 40 w k = Some k'" and n: "node_at w k' = Some n"
    by (auto simp: stat_loc_def split: option.splits)
  from follow_ext [OF keeps_ext [OF e] f] n have "follow 40 t k = Some k'" by simp
  moreover from e n have "node_at t k' = Some n" by (simp add: keeps_def)
  ultimately show ?thesis by (simp add: stat_loc_def)
qed

lemma read_file_keeps: "keeps w t \<Longrightarrow> read_file w p = Some c \<Longrightarrow> read_file t p = Some c"
  by (auto simp: read_file_def os_stat_def loc_of_ext [OF keeps_ext] dest: stat_loc_keeps
      split: sum.splits node.splits option.splits)

lemma mkdirs_loc_keeps: "mkdirs_loc w base cs = Inr w' \<Longrightarrow> keeps w w'"
proof (induction cs arbitrary: w base)
  case Nil
  then show ?case by (simp add: keeps_refl)
next
  case (Cons c cs)
  show ?case
  proof (cases "node_at w (base @ [c])")
    case None
    with Cons.prems have "mkdirs_loc (put_node (base @ [c]) Dir w) (base @ [c]) cs = Inr w'"
      by simp
    from Cons.IH [OF this] keeps_put_new [OF None] show ?thesis by (blast intro: keeps_trans)
  next
    case (Some n)
    with Cons show ?thesis
      by (cases n) (auto simp: keeps_refl split: if_splits)
  qed
qed

lemma os_makedirs_keeps: "os_makedirs w d = Inr w' \<Longrightarrow> keeps w w'"
  by (auto simp: os_makedirs_def dest: mkdirs_loc_keeps split: option.splits)

lemma mkdirs_loc_stable:
  "mkdirs_loc w base cs = Inr w' \<Longrightarrow> ext w' t \<Longrightarrow> mkdirs_loc t base cs = Inr t"
proof (induction cs arbitrary: w base)
  case Nil
  then show ?case by simp
next
  case (Cons c cs)
  show ?case
  proof (cases "node_at w (base @ [c])")
    case None
    with Cons.prems have r: "mkdirs_loc (put_node (base @ [c]) Dir w) (base @ [c]) cs = Inr w'"
      by simp
    have "node_at (put_node (base @ [c]) Dir w) (base @ [c]) = Some Dir"
      by (simp add: node_at_put)
    with mkdirs_loc_keeps [OF r] have "node_at w' (base @ [c]) = Some Dir"
      by (simp add: keeps_def)
    with Cons.prems(2) have "node_at t (base @ [c]) = Some Dir" by (rule ext_dir)
    with Cons.IH [OF r Cons.prems(2)] show ?thesis by simp
  next
    case (Some n)
    show ?thesis
    proof (cases n)
      case (File x)
      with Some Cons.prems show ?thesis by simp
    next
      case Dir
      with Some Cons.prems have r: "mkdirs_loc w (base @ [c]) cs = Inr w'" by simp
      from mkdirs_loc_keeps [OF r] Some Dir have "node_at w' (base @ [c]) = Some Dir"
        by (simp add: keeps_def)
      with Cons.prems(2) have "node_at t (base @ [c]) = Some Dir" by (rule ext_dir)
      with Cons.IH [OF r Cons.prems(2)] show ?thesis by simp
    next
      case (Symlink x)
      with Some Cons.prems have cs: "cs = []" and st: "stat_loc w (base @ [c]) = Inr Dir"
        and w': "w' = w"
        by (auto split: if_splits)
      from Cons.prems(2) w' Some Symlink have "node_at t (base @ [c]) = Some (Symlink x)"
        by (auto intro: ext_symlink)
      moreover from Cons.prems(2) w' st have "stat_loc t (base @ [c]) = Inr Dir"
        by (auto intro: stat_dir_ext)
      ultimately show ?thesis using cs by simp
    qed
  qed
qed

lemma os_makedirs_stable:
  "os_makedirs w d = Inr w' \<Longrightarrow> ext w' t \<Longrightarrow> os_makedirs t d = Inr t"
proof -
  assume m: "os_makedirs w d = Inr w'" and e: "ext w' t"
  from os_makedirs_keeps [OF m] e have "cwd t = cwd w" by (simp add: keeps_def ext_def)
  then have "loc_of t d = loc_of w d" by (simp add: loc_of_def)
  with m e show ?thesis
    by (auto simp: os_makedirs_def dest: mkdirs_loc_stable split: option.splits)
qed

section \<open>What the playlist writer leaves in the file\<close>

lemma write_file_result:
  assumes "write_file w p x = Inr w'"
  shows "ext w w' \<and> read_file w' p = Some x"
proof -
  from assms obtain k where k: "loc_of w p = Some k"
    by (auto simp: write_file_def split: option.splits)
  from assms k obtain k' where f: "follow 40 w k = Some k'"
    by (auto simp: write_file_def split: option.splits)
  from assms k f have nl: "\<And>t. node_at w k' \<noteq> Some (Symlink t)"
    by (auto simp: write_file_def split: option.splits node.splits)
  from assms k f have ne: "k' \<noteq> []"
    by (auto simp: write_file_def split: option.splits node.splits)
  from assms k f have w': "w' = put_node k' (File x) w"
    by (auto simp: write_file_def create_node_def split: option.splits node.splits)
  from assms k f have "node_at w k' = None \<or> (\<exists>c. node_at w k' = Some (File c))"
    by (auto simp: write_file_def split: option.splits node.splits)
  then have "ext w w'"
    unfolding w' by (auto intro: keeps_ext keeps_put_new ext_put_file)
  moreover have "read_file w' p = Some x"
    using k f ne by (simp add: w' read_file_def os_stat_def stat_loc_def follow_put_file [OF nl]
        node_at_put)
  ultimately show ?thesis by simp
qed

lemma append_file_result:
  assumes "read_file w p = Some c"
  shows "\<exists>w'. append_file w p x = Inr w' \<and> ext w w' \<and> read_file w' p = Some (c @ x)"
proof -
  from assms obtain k where k: "loc_of w p = Some k"
    by (auto simp: read_file_def os_stat_def split: option.splits)
  from assms k obtain k' where f: "follow 40 w k = Some k'" and n: "node_at w k' = Some (File c)"
    by (auto simp: read_file_def os_stat_def stat_loc_def
        split: option.splits sum.splits node.splits)
  from n have nl: "\<And>t. node_at w k' \<noteq> Some (Symlink t)" by simp
  from n have ne: "k' \<noteq> []" by auto
  have "append_file w p x = Inr (put_node k' (File (c @ x)) w)"
    using k f n by (simp add: append_file_def)
  moreover have "read_file (put_node k' (File (c @ x)) w) p = Some (c @ x)"
    using k f ne by (simp add: read_file_def os_stat_def stat_loc_def follow_put_file [OF nl]
        node_at_put)
  moreover have "ext w (put_node k' (File (c @ x)) w)"
    using n by (rule ext_put_file)
  ultimately show ?thesis by simp
qed

lemma truncate_keep:
  assumes "read_file w file = Some c" and "c \<noteq> []"
    and "truncate_file file h False w = Inr w'"
  shows "read_file w' file = Some c \<and> os_makedirs w (dirname file) = Inr w'"
proof -
  from assms(3) obtain w1 where m: "os_makedirs w (dirname file) = Inr w1"
    by (auto simp: truncate_file_def split: sum.splits)
  have r: "read_file w1 file = Some c"
    using read_file_keeps [OF os_makedirs_keeps [OF m] assms(1)] .
  then have "os_stat w1 file = Inr (File c)"
    by (auto simp: read_file_def split: sum.splits node.splits)
  with assms(2,3) m have "w' = w1" by (simp add: truncate_file_def)
  with r m show ?thesis by simp
qed

lemma later_write:
  assumes "os_makedirs w (dirname file) = Inr w" and "read_file w file = Some c" and "c \<noteq> []"
  shows "\<exists>w'. write_to_m3u source label file False w = Inr w'
           \<and> os_makedirs w' (dirname file) = Inr w'
           \<and> read_file w' file = Some (c @ m3u_entry_text (source, label))"
proof -
  from assms(2) have "os_stat w file = Inr (File c)"
    by (auto simp: read_file_def split: sum.splits node.splits)
  with assms(1,3) have t: "truncate_file file (''#EXTM3U'' @ [CHR 0x0A]) False w = Inr w"
    by (simp add: truncate_file_def)
  from append_file_result [OF assms(2), of "m3u_entry_text (source, label)"] obtain w' where
    a: "append_file w file (m3u_entry_text (source, label)) = Inr w'" and e: "ext w w'"
    and r: "read_file w' file = Some (c @ m3u_entry_text (source, label))" by blast
  from t a have "write_to_m3u source label file False w = Inr w'"
    by (simp add: write_to_m3u_def m3u_entry_text_def)
  moreover from os_makedirs_stable [OF assms(1) e] have "os_makedirs w' (dirname file) = Inr w'" .
  ultimately show ?thesis using r by simp
qed

lemma later_writes:
  assumes "os_makedirs w (dirname file) = Inr w" and "read_file w file = Some c" and "c \<noteq> []"
  shows "\<exists>w'. m3u_writes file es False w = Inr w'
           \<and> read_file w' file = Some (c @ concat (map m3u_entry_text es))"
  using assms
proof (induction es arbitrary: w c)
  case Nil
  then show ?case by simp
next
  case (Cons e es)
  obtain source label where e: "e = (source, label)" by (cases e)
  from later_write [OF Cons.prems, of source label] obtain w1 where
    w: "write_to_m3u source label file False w = Inr w1"
    and m: "os_makedirs w1 (dirname file) = Inr w1"
    and r: "read_file w1 file = Some (c @ m3u_entry_text (source, label))" by blast
  from Cons.IH [OF m r] Cons.prems(3) obtain w' where
    "m3u_writes file es False w1 = Inr w'"
    "read_file w' file = Some ((c @ m3u_entry_text (source, label)) @ concat (map m3u_entry_text es))"
    by auto
  with w e show ?case by simp
qed

text \<open>
  Claim C6. When the first entry is written to a file with \<^verbatim>\<open>overwrite=True\<close> and this
  write returns, every later write of the run to that file (with \<^verbatim>\<open>overwrite=False\<close>)
  returns as well, and the file then holds exactly the header line \<^verbatim>\<open>#EXTM3U\<close> followed,
  for each entry in write order, by the line \<^verbatim>\<open>#EXTINF:0,\<close> with the display name and
  the line with the source. The content does not depend on what the file held before.
\<close>

theorem m3u_file_content:
  assumes "write_to_m3u source label file True w = Inr w1"
  shows "\<exists>w'. m3u_writes file ((source, label) # es) True w = Inr w'
           \<and> read_file w' file =
               Some (''#EXTM3U'' @ [CHR 0x0A]
                     @ concat (map m3u_entry_text ((source, label) # es)))"
proof -
  from assms obtain wa where
    t: "truncate_file file (''#EXTM3U'' @ [CHR 0x0A]) True w = Inr wa"
    and a: "append_file wa file (m3u_entry_text (source, label)) = Inr w1"
    by (auto simp: write_to_m3u_def m3u_entry_text_def split: sum.splits)
  from t obtain wm where m: "os_makedirs w (dirname file) = Inr wm"
    and wf: "write_file wm file (''#EXTM3U'' @ [CHR 0x0A]) = Inr wa"
    by (auto simp: truncate_file_def split: sum.splits)
  from write_file_result [OF wf] have e1: "ext wm wa"
    and ra: "read_file wa file = Some (''#EXTM3U'' @ [CHR 0x0A])" by simp_all
  from append_file_result [OF ra, of "m3u_entry_text (source, label)"] a have e2: "ext wa w1"
    and r1: "read_file w1 file
               = Some ((''#EXTM3U'' @ [CHR 0x0A]) @ m3u_entry_text (source, label))" by auto
  from os_makedirs_stable [OF m ext_trans [OF e1 e2]]
  have m1: "os_makedirs w1 (dirname file) = Inr w1" .
  from later_writes [OF m1 r1, of es] obtain w' where
    "m3u_writes file es False w1 = Inr w'"
    "read_file w' file =
       Some (((''#EXTM3U'' @ [CHR 0x0A]) @ m3u_entry_text (source, label))
             @ concat (map m3u_entry_text es))"
    by auto
  with assms show ?thesis by simp
qed

theorem m3u_file_content_witness:
  "write_to_m3u ''./vids/a.mp4'' ''Video A'' ''/out/old.m3u'' True old_disk
     = Inr (old_disk\<lparr>nodes := [([''out''], Dir), ([''out'', ''old.m3u''],
          File (''#EXTM3U'' @ [CHR 0x0A] @ ''#EXTINF:0,Video A'' @ [CHR 0x0A] @ ''./vids/a.mp4''
                @ [CHR 0x0A]))]\<rparr>)
   \<and> (\<exists>w'. m3u_writes ''/out/old.m3u'' [(''./vids/a.mp4'', ''Video A''), (''http://b'', ''B'')]
              True old_disk = Inr w'
         \<and> read_file w' ''/out/old.m3u'' =
             Some (''#EXTM3U'' @ [CHR 0x0A]
                   @ concat (map m3u_entry_text
                       [(''./vids/a.mp4'', ''Video A''), (''http://b'', ''B'')])))"
proof (rule conjI)
  show h: "write_to_m3u ''./vids/a.mp4'' ''Video A'' ''/out/old.m3u'' True old_disk
     = Inr (old_disk\<lparr>nodes := [([''out''], Dir), ([''out'', ''old.m3u''],
          File (''#EXTM3U'' @ [CHR 0x0A] @ ''#EXTINF:0,Video A'' @ [CHR 0x0A] @ ''./vids/a.mp4''
                @ [CHR 0x0A]))]\<rparr>)"
    by code_simp
  show "\<exists>w'. m3u_writes ''/out/old.m3u'' [(''./vids/a.mp4'', ''Video A''), (''http://b'', ''B'')]
              True old_disk = Inr w'
         \<and> read_file w' ''/out/old.m3u'' =
             Some (''#EXTM3U'' @ [CHR 0x0A]
                   @ concat (map m3u_entry_text
                       [(''./vids/a.mp4'', ''Video A''), (''http://b'', ''B'')]))"
    by (rule m3u_file_content [OF h])
qed

text \<open>
  Claim C7. A write with \<^verbatim>\<open>overwrite=False\<close> to a file that exists and is not empty
  leaves the previous content as a prefix of the file and appends the new entry, and
  nothing else, after it.
\<close>

theorem append_keeps_content:
  assumes "read_file w file = Some c" and "c \<noteq> []"
    and "write_to_m3u source label file False w = Inr w'"
  shows "read_file w' file = Some (c @ ''#EXTINF:0,'' @ label @ [CHR 0x0A] @ source @ [CHR 0x0A])"
proof -
  from assms(3) obtain w1 where
    t: "truncate_file file (''#EXTM3U'' @ [CHR 0x0A]) False w = Inr w1"
    by (auto simp: write_to_m3u_def split: sum.splits)
  have r1: "read_file w1 file = Some c"
    using truncate_keep [OF assms(1,2) t] by simp
  from append_file_result [OF r1, of "''#EXTINF:0,'' @ label @ [CHR 0x0A] @ source @ [CHR 0x0A]"]
    assms(3) t show ?thesis
    by (auto simp: write_to_m3u_def)
qed

theorem append_keeps_content_witness:
  "read_file old_disk ''/out/old.m3u'' = Some ''junk'' \<and> ''junk'' \<noteq> []
   \<and> write_to_m3u ''http://b'' ''B'' ''/out/old.m3u'' False old_disk
       = Inr (old_disk\<lparr>nodes := [([''out''], Dir), ([''out'', ''old.m3u''],
            File (''junk'' @ ''#EXTINF:0,B'' @ [CHR 0x0A] @ ''http://b'' @ [CHR 0x0A]))]\<rparr>)
   \<and> read_file (old_disk\<lparr>nodes := [([''out''], Dir), ([''out'', ''old.m3u''],
            File (''junk'' @ ''#EXTINF:0,B'' @ [CHR 0x0A] @ ''http://b'' @ [CHR 0x0A]))]\<rparr>)
         ''/out/old.m3u''
       = Some (''junk'' @ ''#EXTINF:0,'' @ ''B'' @ [CHR 0x0A] @ ''http://b'' @ [CHR 0x0A])"
proof (intro conjI)
  show r: "read_file old_disk ''/out/old.m3u'' = Some ''junk''" by code_simp
  show n: "''junk'' \<noteq> []" by simp
  show h: "write_to_m3u ''http://b'' ''B'' ''/out/old.m3u'' False old_disk
       = Inr (old_disk\<lparr>nodes := [([''out''], Dir), ([''out'', ''old.m3u''],
            File (''junk'' @ ''#EXTINF:0,B'' @ [CHR 0x0A] @ ''http://b'' @ [CHR 0x0A]))]\<rparr>)"
    by code_simp
  show "read_file (old_disk\<lparr>nodes := [([''out''], Dir), ([''out'', ''old.m3u''],
            File (''junk'' @ ''#EXTINF:0,B'' @ [CHR 0x0A] @ ''http://b'' @ [CHR 0x0A]))]\<rparr>)
         ''/out/old.m3u''
       = Some (''junk'' @ ''#EXTINF:0,'' @ ''B'' @ [CHR 0x0A] @ ''http://b'' @ [CHR 0x0A])"
    by (rule append_keeps_content [OF r n h])
qed

section \<open>Running the directory emitter twice\<close>









section \<open>What the stale-link cleaner removes\<close>

lemma split_sep_nonempty [simp]: "split_sep p \<noteq> []"
  by (induction p) (auto split: list.splits)



lemma step_comp_empty [simp]: "step_comp k [] = k"
  by (simp add: step_comp_def)







lemma cwd_del [simp]: "cwd (del_node k w) = cwd w"
  by (simp add: del_node_def)

lemma cwd_msg [simp]: "cwd (msg line w) = cwd w"
  by (simp add: msg_def)





lemma wf_msg [simp]: "wf_world (msg line w) = wf_world w"
  by (simp add: wf_world_def msg_def node_at_def)



lemma distinct_children [simp]: "distinct (children w k)"
  by (simp add: children_def)


















lemma butlast_two [simp]: "butlast (P @ [d, f]) = P @ [d]"
  by (simp add: butlast_append)








end
